theory Spec2Isabelle
  imports Complex_Main "HOL-Library.Multiset" "HOL-Library.Option_ord"
begin

section \<open>Data model\<close>

text \<open>
  \<^verbatim>\<open>Artifact.__init__\<close> (artifacts.py) sets nine attributes; the record below has one
  field per attribute. The attribute \<^verbatim>\<open>id\<close> is called \<open>artifact_id\<close> here, since \<open>id\<close>
  is the identity function of HOL. An absent attribute (\<^verbatim>\<open>None\<close>) is \<open>None\<close>.
  Python floats are read as real numbers throughout: rounding, infinities and
  not-a-number inputs are outside this model. The one not-a-number the population
  code itself can produce from finite input (the mean of an empty slice) is modelled
  explicitly further down.

  \<^verbatim>\<open>Artifact\<close> defines no \<^verbatim>\<open>__eq__\<close>, so Python compares artifacts by object identity.
  A value of the record stands for one object: two artifacts are the same object
  exactly when they are equal as records.
\<close>

record artifact =
  artifact_id :: string
  idea :: "string option"
  genome :: "string option"
  phenome :: "string option"
  prompt :: "string option"
  embedding :: "real list option"
  fitness :: "real option"
  creation_time :: real
  metadata :: "(string \<times> string) list"

text \<open>
  \<^verbatim>\<open>Population.__init__\<close>: the list \<^verbatim>\<open>self.artifacts\<close> and the dict
  \<^verbatim>\<open>self.id_to_artifact\<close>.
\<close>

record population =
  artifacts :: "artifact list"
  id_to_artifact :: "string \<rightharpoonup> artifact"

definition population_init :: population where
  "population_init = \<lparr>artifacts = [], id_to_artifact = Map.empty\<rparr>"

datatype error = ValueError

section \<open>Population store\<close>

text \<open>
  \<^verbatim>\<open>
  def add(self, artifact):
      self.artifacts.append(artifact)
      self.id_to_artifact[artifact.id] = artifact
  \<close>
  There is no check and no raise: the method always returns.
\<close>

definition add :: "population \<Rightarrow> artifact \<Rightarrow> population" where
  "add pop a =
     \<lparr>artifacts = artifacts pop @ [a],
      id_to_artifact = (id_to_artifact pop)(artifact_id a \<mapsto> a)\<rparr>"

text \<open>\<^verbatim>\<open>add_all\<close>: the loop \<^verbatim>\<open>for artifact in artifacts: self.add(artifact)\<close>.\<close>

fun add_all :: "population \<Rightarrow> artifact list \<Rightarrow> population" where
  "add_all pop [] = pop"
| "add_all pop (a # as) = add_all (add pop a) as"

text \<open>
  \<^verbatim>\<open>
  def remove(self, artifact):
      if artifact.id in self.id_to_artifact:
          self.artifacts.remove(artifact)
          del self.id_to_artifact[artifact.id]
  \<close>
  \<^verbatim>\<open>list.remove\<close> deletes the first occurrence of the object and raises
  \<^verbatim>\<open>ValueError\<close> when the object is not in the list; the exception leaves the method
  before the \<^verbatim>\<open>del\<close>, so the store is as it was.
\<close>

definition remove :: "population \<Rightarrow> artifact \<Rightarrow> error + population" where
  "remove pop a =
     (if artifact_id a \<in> dom (id_to_artifact pop) then
        (if a \<in> set (artifacts pop) then
           Inr \<lparr>artifacts = remove1 a (artifacts pop),
                id_to_artifact = (id_to_artifact pop)(artifact_id a := None)\<rparr>
         else Inl ValueError)
      else Inr pop)"

definition get :: "population \<Rightarrow> string \<Rightarrow> artifact option" where
  "get pop i = id_to_artifact pop i"

definition get_all :: "population \<Rightarrow> artifact list" where
  "get_all pop = artifacts pop"

text \<open>
  A Python slice \<^verbatim>\<open>xs[:k]\<close>: the first \<open>k\<close> elements, and for a negative \<open>k\<close> all but
  the last \<open>-k\<close> elements.
\<close>

definition py_take :: "int \<Rightarrow> 'a list \<Rightarrow> 'a list" where
  "py_take k xs = (if 0 \<le> k then take (nat k) xs else take (nat (int (length xs) + k)) xs)"

text \<open>
  \<^verbatim>\<open>
  def get_random(self, count=1):
      if count >= len(self.artifacts):
          return self.get_all()
      indices = np.random.choice(len(self.artifacts), size=count, replace=False)
      return [self.artifacts[i] for i in indices]
  \<close>
  \<^verbatim>\<open>np.random.choice(n, size, replace=False)\<close> draws a random permutation of
  \<^verbatim>\<open>range(n)\<close> and returns its first \<^verbatim>\<open>size\<close> entries; it raises \<^verbatim>\<open>ValueError\<close> for a
  negative size. The permutation drawn by the generator is the argument \<open>perm\<close>.
\<close>

definition random_choice :: "nat list \<Rightarrow> int \<Rightarrow> error + nat list" where
  "random_choice perm sz = (if sz < 0 then Inl ValueError else Inr (take (nat sz) perm))"

definition get_random :: "population \<Rightarrow> nat list \<Rightarrow> int \<Rightarrow> error + artifact list" where
  "get_random pop perm cnt =
     (if cnt \<ge> int (length (artifacts pop)) then Inr (get_all pop)
      else case random_choice perm cnt of
             Inl e \<Rightarrow> Inl e
           | Inr indices \<Rightarrow> Inr (map (\<lambda>i. artifacts pop ! i) indices))"

text \<open>
  \<^verbatim>\<open>
  def get_best(self, count=1):
      sorted_artifacts = sorted(self.artifacts,
          key=lambda a: a.fitness if a.fitness is not None else float("-inf"),
          reverse=True)
      return sorted_artifacts[:count]
  \<close>
  The key is a \<open>real option\<close> in the order of the library theory Option_ord, where
  \<open>None\<close> is below every \<open>Some x\<close>: \<open>None\<close> is the key \<^verbatim>\<open>float("-inf")\<close>.
  \<^verbatim>\<open>sorted(..., reverse=True)\<close> reverses the list, sorts it stably in ascending order
  and reverses the result; \<open>sort_key\<close> is a stable insertion sort.
\<close>

definition fitness_key :: "artifact \<Rightarrow> real option" where
  "fitness_key a = (case fitness a of Some f \<Rightarrow> Some f | None \<Rightarrow> None)"

definition sorted_reverse :: "('a \<Rightarrow> 'k::linorder) \<Rightarrow> 'a list \<Rightarrow> 'a list" where
  "sorted_reverse key xs = rev (sort_key key (rev xs))"

definition get_best :: "population \<Rightarrow> int \<Rightarrow> artifact list" where
  "get_best pop cnt = py_take cnt (sorted_reverse fitness_key (artifacts pop))"

section \<open>Novelty selection\<close>

text \<open>
  The embeddings argument is a two-dimensional tensor, given as the list of its rows.
  \<^verbatim>\<open>embeddings.to(torch.float32)\<close> changes the precision only and is the identity on
  real numbers.

  A score is a float of the result tensor: a number, or the not-a-number that
  \<^verbatim>\<open>mean\<close> returns for an empty slice.
\<close>

datatype score = NaN | Fin real

datatype novelty_result =
  Indices "nat list"
| IndicesAndScores "nat list" "score list"

fun indices_of :: "novelty_result \<Rightarrow> nat list" where
  "indices_of (Indices is) = is"
| "indices_of (IndicesAndScores is ds) = is"

fun scores_of :: "novelty_result \<Rightarrow> score list option" where
  "scores_of (Indices is) = None"
| "scores_of (IndicesAndScores is ds) = Some ds"

text \<open>
  \<^verbatim>\<open>torch.nn.functional.normalize(embeddings, dim=1)\<close> with its defaults \<^verbatim>\<open>p=2\<close> and
  \<^verbatim>\<open>eps=1e-12\<close>: every row \<open>v\<close> becomes \<open>v / max (\<parallel>v\<parallel>, eps)\<close>.
\<close>

definition eps :: real where
  "eps = 1 / 10 ^ 12"

definition norm2 :: "real list \<Rightarrow> real" where
  "norm2 v = sqrt (sum_list (map (\<lambda>x. x\<^sup>2) v))"

definition normalize_row :: "real list \<Rightarrow> real list" where
  "normalize_row v = map (\<lambda>x. x / max (norm2 v) eps) v"

definition normalize_rows :: "real list list \<Rightarrow> real list list" where
  "normalize_rows emb = map normalize_row emb"

text \<open>\<^verbatim>\<open>torch.mm(norm_emb, norm_emb.t())\<close>: entry \<open>(i, j)\<close> is the inner product of rows \<open>i\<close> and \<open>j\<close>.\<close>

definition dot :: "real list \<Rightarrow> real list \<Rightarrow> real" where
  "dot u v = sum_list (map2 (*) u v)"

definition mm_t :: "real list list \<Rightarrow> real list list" where
  "mm_t a = map (\<lambda>u. map (\<lambda>v. dot u v) a) a"

definition cosine_distances :: "real list list \<Rightarrow> real list list" where
  "cosine_distances emb = map (map (\<lambda>s. 1 - s)) (mm_t (normalize_rows emb))"

text \<open>\<^verbatim>\<open>torch.finfo(torch.float32).max / 2\<close>, with \<open>max = (2 - 2\<^sup>-\<^sup>2\<^sup>3) * 2\<^sup>1\<^sup>2\<^sup>7\<close>.\<close>

definition max_val :: real where
  "max_val = (2 - 1 / 2 ^ 23) * 2 ^ 127 / 2"

text \<open>The loop \<^verbatim>\<open>for i in range(distances.shape[0]): distances[i, i] = max_val\<close>.\<close>

definition set_diagonal :: "real list list \<Rightarrow> real list list" where
  "set_diagonal d = fold (\<lambda>i d. d[i := (d ! i)[i := max_val]]) [0..<length d] d"

text \<open>
  \<^verbatim>\<open>mean(dim=1)\<close> of one row of \<^verbatim>\<open>k_nearest\<close>: torch returns not-a-number for a row
  with no entry.
\<close>

definition mean :: "real list \<Rightarrow> score" where
  "mean xs = (if xs = [] then NaN else Fin (sum_list xs / real (length xs)))"

text \<open>
  Lines 82 to 97 of \<^verbatim>\<open>select_by_novelty\<close>: normalise, distances, diagonal, sort every
  row in ascending order, keep \<^verbatim>\<open>[:, :k_neighbors]\<close>, take the mean of every row.
\<close>

definition novelty_scores :: "real list list \<Rightarrow> int \<Rightarrow> score list" where
  "novelty_scores emb k =
     map mean (map (py_take k) (map sort (set_diagonal (cosine_distances emb))))"

text \<open>
  \<^verbatim>\<open>torch.argsort(novelty_scores, descending=True)\<close>: torch orders not-a-number above
  every number, so it comes first in descending order. The sort key below is ascending
  in the order of \<open>real option\<close> with \<open>None\<close> least. torch does not fix the order of
  equal scores; this model keeps them in index order.
\<close>

fun desc_key :: "score \<Rightarrow> real option" where
  "desc_key NaN = None"
| "desc_key (Fin x) = Some (- x)"

definition argsort_desc :: "score list \<Rightarrow> nat list" where
  "argsort_desc scores = sort_key (\<lambda>i. desc_key (scores ! i)) [0..<length scores]"

definition select_by_novelty ::
  "population \<Rightarrow> real list list \<Rightarrow> int \<Rightarrow> bool \<Rightarrow> novelty_result" where
  "select_by_novelty pop embeddings k_neighbors return_distances =
     (if int (length (artifacts pop)) \<le> k_neighbors then
        (let indices = [0..<length (artifacts pop)] in
         if return_distances
         then IndicesAndScores indices (replicate (length (artifacts pop)) (Fin 0))
         else Indices indices)
      else
        (let novelty = novelty_scores embeddings k_neighbors;
             sorted_indices = argsort_desc novelty in
         if return_distances
         then IndicesAndScores sorted_indices novelty
         else Indices sorted_indices))"

text \<open>
  The order torch sorts scores in: not-a-number is above every number.
\<close>

fun score_ge :: "score \<Rightarrow> score \<Rightarrow> bool" where
  "score_ge NaN b = True"
| "score_ge (Fin x) NaN = False"
| "score_ge (Fin x) (Fin y) = (y \<le> x)"

text \<open>
  The novelty score in the words of the specification: the mean of the \<open>k\<close> smallest
  distances from row \<open>i\<close> to the other rows. \<open>without i xs\<close> is \<open>xs\<close> with position \<open>i\<close>
  left out, so \<open>other_distances emb i\<close> has no entry for the distance of row \<open>i\<close> to
  itself.
\<close>

definition without :: "nat \<Rightarrow> 'a list \<Rightarrow> 'a list" where
  "without i xs = take i xs @ drop (Suc i) xs"

definition other_distances :: "real list list \<Rightarrow> nat \<Rightarrow> real list" where
  "other_distances emb i = without i (cosine_distances emb ! i)"

definition knn_novelty :: "real list list \<Rightarrow> nat \<Rightarrow> nat \<Rightarrow> score" where
  "knn_novelty emb k i = mean (take k (sort (other_distances emb i)))"

text \<open>The sum of the squares of a vector, the square of its norm.\<close>

definition sumsq :: "real list \<Rightarrow> real" where
  "sumsq v = sum_list (map (\<lambda>x. x\<^sup>2) v)"

section \<open>Generation ledger\<close>

text \<open>
  \<^verbatim>\<open>Population.save\<close> appends one JSON line to
  \<^verbatim>\<open>population_data.jsonl\<close> in the output directory. A line is the dictionary that
  \<^verbatim>\<open>json.dumps\<close> is given; the key \<^verbatim>\<open>count\<close> is the field \<open>entry_count\<close>. The file
  system maps a path to the lines of the file there, and a file that does not exist
  yet has no line (mode \<^verbatim>\<open>"a"\<close> creates it). The clock reading
  \<^verbatim>\<open>datetime.now().isoformat()\<close> is the argument \<open>now\<close>. Failures of the operating system
  (\<^verbatim>\<open>os.makedirs\<close>, \<^verbatim>\<open>open\<close>, \<^verbatim>\<open>write\<close>) are outside the model.
\<close>

record ledger_entry =
  generation :: int
  timestamp :: string
  genome_ids :: "string list"
  entry_count :: nat

type_synonym file_system = "string \<Rightarrow> ledger_entry list"

text \<open>\<^verbatim>\<open>os.path.join(output_dir, "population_data.jsonl")\<close> on POSIX.\<close>

definition path_join :: "string \<Rightarrow> string \<Rightarrow> string" where
  "path_join a b =
     (if b \<noteq> [] \<and> hd b = CHR ''/'' then b
      else if a = [] \<or> last a = CHR ''/'' then a @ b
      else a @ ''/'' @ b)"

definition save :: "file_system \<Rightarrow> string \<Rightarrow> population \<Rightarrow> string \<Rightarrow> int \<Rightarrow> file_system \<times> string" where
  "save fs now pop output_dir gen =
     (let population_data =
            \<lparr>generation = gen,
             timestamp = now,
             genome_ids = map artifact_id (artifacts pop),
             entry_count = length (artifacts pop)\<rparr>;
          population_path = path_join output_dir ''population_data.jsonl''
      in (fs(population_path := fs population_path @ [population_data]), population_path))"

text \<open>
  A sequence of \<^verbatim>\<open>save\<close> calls into one output directory; each call has its own clock
  reading, store contents and generation number.
\<close>

fun save_calls :: "file_system \<Rightarrow> string \<Rightarrow> (string \<times> population \<times> int) list \<Rightarrow> file_system" where
  "save_calls fs output_dir [] = fs"
| "save_calls fs output_dir ((now, pop, gen) # calls) =
     save_calls (fst (save fs now pop output_dir gen)) output_dir calls"

text \<open>The ledger of an output directory: the lines of its \<^verbatim>\<open>population_data.jsonl\<close>.\<close>

definition ledger_path :: "string \<Rightarrow> string" where
  "ledger_path output_dir = path_join output_dir ''population_data.jsonl''"

definition ledger :: "file_system \<Rightarrow> string \<Rightarrow> ledger_entry list" where
  "ledger fs output_dir = fs (ledger_path output_dir)"

section \<open>Sequences of store operations\<close>

datatype store_op = Add artifact | AddAll "artifact list" | Remove artifact

text \<open>
  The store after one operation. A \<^verbatim>\<open>remove\<close> that raises has changed nothing, so the
  store is the one before the call.
\<close>

fun apply_op :: "population \<Rightarrow> store_op \<Rightarrow> population" where
  "apply_op pop (Add a) = add pop a"
| "apply_op pop (AddAll as) = add_all pop as"
| "apply_op pop (Remove a) = (case remove pop a of Inr pop' \<Rightarrow> pop' | Inl e \<Rightarrow> pop)"

fun apply_ops :: "population \<Rightarrow> store_op list \<Rightarrow> population" where
  "apply_ops pop [] = pop"
| "apply_ops pop (op # ops) = apply_ops (apply_op pop op) ops"

text \<open>
  The consistency of the ordered collection with the index: ids are unique in the
  collection, every record of the collection is the index entry of its id, and every
  index entry is a record of the collection under its own id.
\<close>

definition consistent :: "population \<Rightarrow> bool" where
  "consistent pop \<longleftrightarrow>
     distinct (map artifact_id (artifacts pop)) \<and>
     (\<forall>a \<in> set (artifacts pop). id_to_artifact pop (artifact_id a) = Some a) \<and>
     (\<forall>i \<in> dom (id_to_artifact pop). \<exists>a \<in> set (artifacts pop). artifact_id a = i)"

text \<open>
  The ids an operation inserts are new: not in the index, and pairwise different
  within one \<^verbatim>\<open>add_all\<close>.
\<close>

fun fresh_op :: "population \<Rightarrow> store_op \<Rightarrow> bool" where
  "fresh_op pop (Add a) \<longleftrightarrow> artifact_id a \<notin> dom (id_to_artifact pop)"
| "fresh_op pop (AddAll as) \<longleftrightarrow>
     distinct (map artifact_id as) \<and> (\<forall>a \<in> set as. artifact_id a \<notin> dom (id_to_artifact pop))"
| "fresh_op pop (Remove a) \<longleftrightarrow> True"

fun fresh_ops :: "population \<Rightarrow> store_op list \<Rightarrow> bool" where
  "fresh_ops pop [] \<longleftrightarrow> True"
| "fresh_ops pop (op # ops) \<longleftrightarrow> fresh_op pop op \<and> fresh_ops (apply_op pop op) ops"

section \<open>Example values\<close>

text \<open>
  \<^verbatim>\<open>Artifact(id)\<close> with a non-empty id, created at time \<open>t\<close>, and the same with the
  fitness assigned afterwards.
\<close>

definition artifact_init :: "string \<Rightarrow> real \<Rightarrow> artifact" where
  "artifact_init i t =
     \<lparr>artifact_id = i, idea = None, genome = None, phenome = None, prompt = None,
      embedding = None, fitness = None, creation_time = t, metadata = []\<rparr>"

definition with_fitness :: "string \<Rightarrow> real option \<Rightarrow> artifact" where
  "with_fitness i f = (artifact_init i 0)\<lparr>fitness := f\<rparr>"

definition three_artifacts :: population where
  "three_artifacts =
     add_all population_init [artifact_init ''a'' 0, artifact_init ''b'' 0, artifact_init ''c'' 0]"

definition five_artifacts :: population where
  "five_artifacts =
     add_all population_init
       [with_fitness ''a'' (Some (2 / 10)), with_fitness ''b'' None,
        with_fitness ''c'' (Some (9 / 10)), with_fitness ''d'' (Some (5 / 10)),
        with_fitness ''e'' (Some (1 / 10))]"

definition four_artifacts :: population where
  "four_artifacts = add three_artifacts (artifact_init ''d'' 0)"

text \<open>
  The embeddings of the ranking example: two rows that nearly coincide and one
  orthogonal to the first.
\<close>

definition example_embeddings :: "real list list" where
  "example_embeddings = [[1, 0], [99 / 100, 1 / 100], [0, 1]]"

text \<open>The norm of the second row of the example, the square root of \<open>0.99\<^sup>2 + 0.01\<^sup>2\<close>.\<close>

definition example_norm :: real where
  "example_norm = sqrt (4901 / 5000)"

section \<open>Facts about the example values\<close>

lemma length_three_artifacts: "length (artifacts three_artifacts) = 3"
  by (simp add: three_artifacts_def add_def population_init_def)

lemma length_four_artifacts: "length (artifacts four_artifacts) = 4"
  by (simp add: four_artifacts_def add_def length_three_artifacts)

section \<open>Consistency of the store\<close>

lemma consistent_init: "consistent population_init"
  by (simp add: consistent_def population_init_def)

lemma consistent_add:
  assumes "consistent pop" and "artifact_id a \<notin> dom (id_to_artifact pop)"
  shows "consistent (add pop a)"
proof -
  from assms have notin: "artifact_id a \<notin> artifact_id ` set (artifacts pop)"
    unfolding consistent_def by (auto simp: dom_def)
  show ?thesis
    using assms notin unfolding consistent_def add_def
    by (auto simp: dom_def)
qed

lemma dom_add: "dom (id_to_artifact (add pop a)) = insert (artifact_id a) (dom (id_to_artifact pop))"
  by (simp add: add_def)

lemma consistent_add_all:
  "consistent pop \<Longrightarrow> distinct (map artifact_id as) \<Longrightarrow>
   (\<forall>a \<in> set as. artifact_id a \<notin> dom (id_to_artifact pop)) \<Longrightarrow> consistent (add_all pop as)"
proof (induction as arbitrary: pop)
  case Nil
  then show ?case by simp
next
  case (Cons a as)
  have c: "consistent (add pop a)" using Cons.prems by (simp add: consistent_add)
  have d: "distinct (map artifact_id as)" using Cons.prems by simp
  have f: "\<forall>b \<in> set as. artifact_id b \<notin> dom (id_to_artifact (add pop a))"
  proof
    fix b assume b: "b \<in> set as"
    have "artifact_id a \<notin> artifact_id ` set as" using Cons.prems(2) by simp
    then have "artifact_id b \<noteq> artifact_id a" using b by (metis imageI)
    moreover have "artifact_id b \<notin> dom (id_to_artifact pop)" using b Cons.prems(3) by simp
    ultimately show "artifact_id b \<notin> dom (id_to_artifact (add pop a))"
      by (simp add: dom_add)
  qed
  show ?case using Cons.IH [OF c d f] by simp
qed

lemma consistent_remove:
  assumes "consistent pop"
  shows "consistent (case remove pop a of Inr pop' \<Rightarrow> pop' | Inl e \<Rightarrow> pop)"
proof (cases "artifact_id a \<in> dom (id_to_artifact pop) \<and> a \<in> set (artifacts pop)")
  case False
  then show ?thesis using assms by (auto simp: remove_def)
next
  case True
  let ?xs = "artifacts pop"
  have d: "distinct (map artifact_id ?xs)" using assms by (simp add: consistent_def)
  have d': "distinct (map artifact_id (remove1 a ?xs))"
    using d set_remove1_subset [of a ?xs]
    by (auto simp: distinct_map intro: inj_on_subset)
  have other: "artifact_id b \<noteq> artifact_id a" if "b \<in> set (remove1 a ?xs)" for b
  proof -
    have "distinct ?xs" using d by (simp add: distinct_map)
    with that have "b \<in> set ?xs" "b \<noteq> a" by auto
    with d True show ?thesis by (auto simp: distinct_map inj_on_def)
  qed
  have sub: "set (remove1 a ?xs) \<subseteq> set ?xs" by (rule set_remove1_subset)
  have keep: "b \<in> set (remove1 a ?xs)" if "b \<in> set ?xs" "artifact_id b \<noteq> artifact_id a" for b
    using that by (cases "b = a") auto
  let ?p = "\<lparr>artifacts = remove1 a ?xs,
             id_to_artifact = (id_to_artifact pop)(artifact_id a := None)\<rparr>"
  have r: "remove pop a = Inr ?p" using True by (simp add: remove_def)
  have c2: "\<forall>b \<in> set (artifacts ?p). id_to_artifact ?p (artifact_id b) = Some b"
  proof
    fix b assume b: "b \<in> set (artifacts ?p)"
    then have "b \<in> set ?xs" using sub by auto
    then have "id_to_artifact pop (artifact_id b) = Some b"
      using assms by (simp add: consistent_def)
    then show "id_to_artifact ?p (artifact_id b) = Some b"
      using other [of b] b by simp
  qed
  have c3: "\<forall>i \<in> dom (id_to_artifact ?p). \<exists>b \<in> set (artifacts ?p). artifact_id b = i"
  proof
    fix i assume i: "i \<in> dom (id_to_artifact ?p)"
    then have ne: "i \<noteq> artifact_id a" by (auto split: if_splits)
    with i have "i \<in> dom (id_to_artifact pop)" by (auto split: if_splits)
    then obtain b where b: "b \<in> set ?xs" "artifact_id b = i"
      using assms unfolding consistent_def by blast
    then have "b \<in> set (remove1 a ?xs)" using keep ne by simp
    then show "\<exists>b \<in> set (artifacts ?p). artifact_id b = i" using b by auto
  qed
  have "consistent ?p" unfolding consistent_def using d' c2 c3 by simp
  then show ?thesis by (simp add: r)
qed

text \<open>
  Claim C1, as stated, fails: \<^verbatim>\<open>add\<close> of an artifact whose id is already in the index
  does not leave the store unchanged. After adding a second artifact with the id
  \<^verbatim>\<open>"a"\<close>, the ordered collection holds both.
\<close>

theorem add_duplicate_counterexample:
  "artifact_id (artifact_init ''a'' 1) \<in> dom (id_to_artifact (add population_init (artifact_init ''a'' 0)))
   \<and> artifacts (add (add population_init (artifact_init ''a'' 0)) (artifact_init ''a'' 1))
       = [artifact_init ''a'' 0, artifact_init ''a'' 1]
   \<and> add (add population_init (artifact_init ''a'' 0)) (artifact_init ''a'' 1)
       \<noteq> add population_init (artifact_init ''a'' 0)"
  by (simp add: add_def population_init_def artifact_init_def)

text \<open>
  Claim C1, amended: \<^verbatim>\<open>add\<close> of an artifact whose id is already in the index returns
  normally; it appends the artifact to the ordered collection and replaces the index
  entry of that id by the artifact, so the set of indexed ids stays the same and
  \<^verbatim>\<open>get\<close> of the id gives the artifact just added.
\<close>

theorem add_duplicate_overwrites:
  assumes "artifact_id a \<in> dom (id_to_artifact pop)"
  shows "artifacts (add pop a) = artifacts pop @ [a]
       \<and> id_to_artifact (add pop a) = (id_to_artifact pop)(artifact_id a \<mapsto> a)
       \<and> dom (id_to_artifact (add pop a)) = dom (id_to_artifact pop)
       \<and> get (add pop a) (artifact_id a) = Some a"
  using assms by (auto simp: add_def get_def)

text \<open>
  The amended claim C1 at a store that holds one artifact with the id \<^verbatim>\<open>"a"\<close>.
\<close>

theorem add_duplicate_overwrites_witness:
  "artifact_id (artifact_init ''a'' 1) \<in> dom (id_to_artifact (add population_init (artifact_init ''a'' 0)))
   \<and> get (add (add population_init (artifact_init ''a'' 0)) (artifact_init ''a'' 1)) ''a''
       = Some (artifact_init ''a'' 1)
   \<and> length (artifacts (add (add population_init (artifact_init ''a'' 0)) (artifact_init ''a'' 1))) = 2"
proof -
  have h: "artifact_id (artifact_init ''a'' 1)
           \<in> dom (id_to_artifact (add population_init (artifact_init ''a'' 0)))"
    by (simp add: add_def population_init_def artifact_init_def)
  have n: "artifact_id (artifact_init ''a'' 1) = ''a''" by (simp add: artifact_init_def)
  have l: "length (artifacts (add population_init (artifact_init ''a'' 0))) = 1"
    by (simp add: add_def population_init_def)
  show ?thesis using h n l add_duplicate_overwrites [OF h] by simp
qed

text \<open>
  Claim C9, as stated, fails: two \<^verbatim>\<open>add\<close> calls with the same id leave two records in
  the ordered collection under one id.
\<close>

theorem store_consistency_counterexample:
  "\<not> consistent (apply_ops population_init [Add (artifact_init ''a'' 0), Add (artifact_init ''a'' 1)])"
  by (simp add: consistent_def add_def population_init_def artifact_init_def)

text \<open>
  Claim C9, amended: from a consistent store, every sequence of \<^verbatim>\<open>add\<close>, \<^verbatim>\<open>add_all\<close> and
  \<^verbatim>\<open>remove\<close> calls in which each inserted id is new (not in the index at the time of
  the call, and not repeated within one \<^verbatim>\<open>add_all\<close>) ends in a consistent store.
\<close>

theorem store_consistency_fresh:
  "consistent pop \<Longrightarrow> fresh_ops pop ops \<Longrightarrow> consistent (apply_ops pop ops)"
proof (induction ops arbitrary: pop)
  case Nil
  then show ?case by simp
next
  case (Cons op ops)
  have "consistent (apply_op pop op)"
  proof (cases op)
    case (Add a)
    then show ?thesis using Cons.prems by (simp add: consistent_add)
  next
    case (AddAll as)
    then show ?thesis using Cons.prems by (simp add: consistent_add_all)
  next
    case (Remove a)
    then show ?thesis using Cons.prems(1) consistent_remove [of pop a] by simp
  qed
  then show ?case using Cons.IH Cons.prems by simp
qed

text \<open>
  The amended claim C9 on the empty store, with one \<^verbatim>\<open>add\<close>, one \<^verbatim>\<open>add_all\<close>, a
  \<^verbatim>\<open>remove\<close> that succeeds and a \<^verbatim>\<open>remove\<close> of another object with a stored id, which
  raises and changes nothing.
\<close>

theorem store_consistency_fresh_witness:
  "consistent population_init
   \<and> fresh_ops population_init
        [Add (artifact_init ''a'' 0),
         AddAll [artifact_init ''b'' 0, artifact_init ''c'' 0],
         Remove (artifact_init ''a'' 0), Remove (artifact_init ''b'' 7)]
   \<and> consistent (apply_ops population_init
        [Add (artifact_init ''a'' 0),
         AddAll [artifact_init ''b'' 0, artifact_init ''c'' 0],
         Remove (artifact_init ''a'' 0), Remove (artifact_init ''b'' 7)])
   \<and> artifacts (apply_ops population_init
        [Add (artifact_init ''a'' 0),
         AddAll [artifact_init ''b'' 0, artifact_init ''c'' 0],
         Remove (artifact_init ''a'' 0), Remove (artifact_init ''b'' 7)])
       = [artifact_init ''b'' 0, artifact_init ''c'' 0]"
proof -
  let ?ops = "[Add (artifact_init ''a'' 0),
         AddAll [artifact_init ''b'' 0, artifact_init ''c'' 0],
         Remove (artifact_init ''a'' 0), Remove (artifact_init ''b'' 7)]"
  have c: "consistent population_init"
    by (simp add: consistent_def population_init_def)
  have f: "fresh_ops population_init ?ops"
    by (simp add: add_def remove_def population_init_def artifact_init_def)
  have r: "artifacts (apply_ops population_init ?ops) = [artifact_init ''b'' 0, artifact_init ''c'' 0]"
    by (simp add: add_def remove_def population_init_def artifact_init_def)
  show ?thesis using c f r store_consistency_fresh [OF c f] by simp
qed

section \<open>Selection by fitness and at random\<close>

lemma sorted_reverse_mset: "mset (sorted_reverse key xs) = mset xs"
  by (simp add: sorted_reverse_def)

lemma sorted_reverse_descending: "sorted (rev (map key (sorted_reverse key xs)))"
  by (simp add: sorted_reverse_def rev_map)

lemma sorted_reverse_stable:
  "filter (\<lambda>a. key a = k) (sorted_reverse key xs) = filter (\<lambda>a. key a = k) xs"
proof -
  have "filter (\<lambda>a. key a = k) (sorted_reverse key xs)
        = rev (filter (\<lambda>a. key a = k) (sort_key key (rev xs)))"
    by (simp add: sorted_reverse_def rev_filter)
  also have "\<dots> = rev (filter (\<lambda>a. key a = k) (rev xs))"
    by (simp add: sort_key_stable)
  also have "\<dots> = filter (\<lambda>a. key a = k) xs"
    by (simp add: rev_filter)
  finally show ?thesis .
qed

lemma get_best_five: "get_best five_artifacts 2 = [with_fitness ''c'' (Some (9 / 10)), with_fitness ''d'' (Some (5 / 10))]"
  by (simp add: get_best_def py_take_def sorted_reverse_def five_artifacts_def add_def
      population_init_def with_fitness_def artifact_init_def fitness_key_def)

text \<open>
  Claim C5: for a count that is not negative, \<^verbatim>\<open>get_best\<close> returns a prefix of a
  rearrangement of the store, of length \<open>min count n\<close>; the rearrangement is in
  descending order of fitness, every record after the prefix therefore has a fitness
  no higher than the records of the prefix, and records of equal fitness keep their
  insertion order. A record with no fitness has the least key. For the fitnesses
  \<^verbatim>\<open>[0.2, None, 0.9, 0.5, 0.1]\<close> the call \<^verbatim>\<open>get_best(2)\<close> returns the records with
  fitness 0.9 and 0.5, in this order.
\<close>

theorem get_best_spec:
  "(0 \<le> cnt \<longrightarrow>
      (\<exists>rest.
         mset (get_best pop cnt @ rest) = mset (artifacts pop)
       \<and> length (get_best pop cnt) = min (nat cnt) (length (artifacts pop))
       \<and> sorted (rev (map fitness_key (get_best pop cnt @ rest)))
       \<and> (\<forall>k. filter (\<lambda>a. fitness_key a = k) (get_best pop cnt @ rest)
                = filter (\<lambda>a. fitness_key a = k) (artifacts pop))))
   \<and> (\<forall>a b. fitness a = None \<longrightarrow> fitness_key a \<le> fitness_key b)
   \<and> get_best five_artifacts 2
       = [with_fitness ''c'' (Some (9 / 10)), with_fitness ''d'' (Some (5 / 10))]"
proof (intro conjI impI allI)
  assume c: "0 \<le> cnt"
  let ?full = "sorted_reverse fitness_key (artifacts pop)"
  have g: "get_best pop cnt = take (nat cnt) ?full"
    using c by (simp add: get_best_def py_take_def)
  have split: "get_best pop cnt @ drop (nat cnt) ?full = ?full"
    by (simp add: g)
  have len: "length ?full = length (artifacts pop)"
    using sorted_reverse_mset [of fitness_key "artifacts pop"] by (metis size_mset)
  have "mset (get_best pop cnt @ drop (nat cnt) ?full) = mset (artifacts pop)"
    by (simp only: split sorted_reverse_mset)
  moreover have "length (get_best pop cnt) = min (nat cnt) (length (artifacts pop))"
    by (simp add: g len min.commute)
  moreover have "sorted (rev (map fitness_key (get_best pop cnt @ drop (nat cnt) ?full)))"
    by (simp only: split sorted_reverse_descending)
  moreover have "\<forall>k. filter (\<lambda>a. fitness_key a = k) (get_best pop cnt @ drop (nat cnt) ?full)
                = filter (\<lambda>a. fitness_key a = k) (artifacts pop)"
    by (simp only: split sorted_reverse_stable) simp
  ultimately show "\<exists>rest.
         mset (get_best pop cnt @ rest) = mset (artifacts pop)
       \<and> length (get_best pop cnt) = min (nat cnt) (length (artifacts pop))
       \<and> sorted (rev (map fitness_key (get_best pop cnt @ rest)))
       \<and> (\<forall>k. filter (\<lambda>a. fitness_key a = k) (get_best pop cnt @ rest)
                = filter (\<lambda>a. fitness_key a = k) (artifacts pop))"
    by blast
next
  fix a b :: artifact
  assume "fitness a = None"
  then show "fitness_key a \<le> fitness_key b" by (simp add: fitness_key_def)
next
  show "get_best five_artifacts 2
       = [with_fitness ''c'' (Some (9 / 10)), with_fitness ''d'' (Some (5 / 10))]"
    by (rule get_best_five)
qed

text \<open>
  Claim C5 at the store of five artifacts with a count above its size: all five
  records come back, and the record with no fitness is below the one with fitness 0.1.
\<close>

theorem get_best_spec_witness:
  "(0::int) \<le> 7 \<and> length (get_best five_artifacts 7) = 5
   \<and> fitness (with_fitness ''b'' None) = None
   \<and> fitness_key (with_fitness ''b'' None) \<le> fitness_key (with_fitness ''e'' (Some (1 / 10)))"
proof -
  have h: "(0::int) \<le> 7" by simp
  have l: "length (artifacts five_artifacts) = 5"
    by (simp add: five_artifacts_def add_def population_init_def)
  have n: "fitness (with_fitness ''b'' None) = None" by (simp add: with_fitness_def)
  from get_best_spec [of 7 five_artifacts] h
  obtain rest where "length (get_best five_artifacts 7) = min (nat 7) (length (artifacts five_artifacts))"
    by blast
  then have a: "length (get_best five_artifacts 7) = 5" by (simp add: l)
  from get_best_spec [of 7 five_artifacts] n
  have b: "fitness_key (with_fitness ''b'' None) \<le> fitness_key (with_fitness ''e'' (Some (1 / 10)))"
    by blast
  show ?thesis using h a n b by simp
qed

text \<open>
  Claim C7: when the generator draws a permutation of \<^verbatim>\<open>range(n)\<close> and the count \<open>k\<close> is
  not negative, \<^verbatim>\<open>get_random\<close> returns normally a list of \<open>min k n\<close> records read at
  pairwise different positions of the store; for \<open>k \<ge> n\<close> it is the whole store, every
  member once; and when the store holds no record twice, no record is returned twice.
\<close>

theorem get_random_spec:
  assumes "mset perm = mset [0..<length (artifacts pop)]" and "0 \<le> k"
  shows "\<exists>r idx. get_random pop perm k = Inr r
          \<and> length r = min (nat k) (length (artifacts pop))
          \<and> distinct idx \<and> set idx \<subseteq> {..<length (artifacts pop)}
          \<and> r = map (\<lambda>i. artifacts pop ! i) idx
          \<and> (int (length (artifacts pop)) \<le> k \<longrightarrow> r = artifacts pop)
          \<and> (distinct (artifacts pop) \<longrightarrow> distinct r)"
proof -
  let ?xs = "artifacts pop"
  let ?n = "length ?xs"
  have dp: "distinct perm" using assms(1) by (metis distinct_upt mset_eq_imp_distinct_iff)
  have sp: "set perm = {..<?n}" using assms(1) by (metis mset_eq_setD set_upt atLeast_upt)
  have lp: "length perm = ?n" using assms(1) by (metis size_mset length_upt diff_zero)
  define idx where "idx = (if int ?n \<le> k then [0..<?n] else take (nat k) perm)"
  have r: "get_random pop perm k = Inr (map (\<lambda>i. ?xs ! i) idx)"
    using assms(2) by (simp add: get_random_def random_choice_def get_all_def idx_def map_nth)
  have d: "distinct idx" using dp by (simp add: idx_def)
  have s: "set idx \<subseteq> {..<?n}" using sp set_take_subset [of "nat k" perm] by (auto simp: idx_def)
  have l: "length (map (\<lambda>i. ?xs ! i) idx) = min (nat k) ?n"
    using assms(2) lp by (auto simp: idx_def)
  have a: "int ?n \<le> k \<longrightarrow> map (\<lambda>i. ?xs ! i) idx = ?xs"
    by (simp add: idx_def map_nth)
  have dr: "distinct ?xs \<longrightarrow> distinct (map (\<lambda>i. ?xs ! i) idx)"
  proof
    assume dx: "distinct ?xs"
    have "inj_on (\<lambda>i. ?xs ! i) (set idx)"
    proof (rule inj_onI)
      fix x y assume "x \<in> set idx" "y \<in> set idx" "?xs ! x = ?xs ! y"
      moreover from this s have "x < ?n" "y < ?n" by auto
      ultimately show "x = y" using dx by (simp add: nth_eq_iff_index_eq)
    qed
    with d show "distinct (map (\<lambda>i. ?xs ! i) idx)" by (simp add: distinct_map)
  qed
  show ?thesis using r d s l a dr by blast
qed

text \<open>
  Claim C7 at the store of three artifacts, the permutation \<^verbatim>\<open>[2, 0, 1]\<close> and the
  count 2.
\<close>

theorem get_random_spec_witness:
  "mset [2, 0, 1] = mset [0..<length (artifacts three_artifacts)] \<and> (0::int) \<le> 2
   \<and> get_random three_artifacts [2, 0, 1] 2 = Inr [artifact_init ''c'' 0, artifact_init ''a'' 0]
   \<and> (\<exists>r. get_random three_artifacts [2, 0, 1] 2 = Inr r \<and> length r = 2 \<and> distinct r)"
proof -
  have u: "[0..<3] = [0, 1, 2]" by (simp add: upt_rec)
  have a: "artifacts three_artifacts = [artifact_init ''a'' 0, artifact_init ''b'' 0, artifact_init ''c'' 0]"
    by (simp add: three_artifacts_def add_def population_init_def)
  have h1: "mset [2, 0, 1] = mset [0..<length (artifacts three_artifacts)]"
    by (simp add: length_three_artifacts u)
  have h2: "(0::int) \<le> 2" by simp
  have v: "get_random three_artifacts [2, 0, 1] 2 = Inr [artifact_init ''c'' 0, artifact_init ''a'' 0]"
    by (simp add: get_random_def random_choice_def a eval_nat_numeral)
  have d: "distinct (artifacts three_artifacts)" by (simp add: a artifact_init_def)
  from get_random_spec [OF h1 h2] d
  have "\<exists>r. get_random three_artifacts [2, 0, 1] 2 = Inr r \<and> length r = 2 \<and> distinct r"
    by (auto simp: length_three_artifacts)
  with h1 h2 v show ?thesis by (intro conjI)
qed

section \<open>Novelty selection: shape of the result\<close>

lemma length_set_diagonal_aux:
  "length (fold (\<lambda>i d. d[i := (d ! i)[i := v]]) is d) = length d"
  by (induction "is" arbitrary: d) simp_all

lemma length_set_diagonal: "length (set_diagonal d) = length d"
  by (simp add: set_diagonal_def length_set_diagonal_aux)

lemma length_cosine_distances: "length (cosine_distances emb) = length emb"
  by (simp add: cosine_distances_def mm_t_def normalize_rows_def)

lemma length_novelty_scores: "length (novelty_scores emb k) = length emb"
  by (simp add: novelty_scores_def length_set_diagonal length_cosine_distances)

lemma mset_argsort_desc: "mset (argsort_desc scores) = mset [0..<length scores]"
  by (simp add: argsort_desc_def)

text \<open>
  Claim C3: when the store has at most \<^verbatim>\<open>k_neighbors\<close> members, \<^verbatim>\<open>select_by_novelty\<close>
  returns the identity ordering \<open>[0..<n]\<close>, and with \<^verbatim>\<open>return_distances\<close> also a zero
  score for every member. It returns a value in both cases: this branch has no raise.
\<close>

theorem novelty_small_population:
  assumes "int (length (artifacts pop)) \<le> k"
  shows "select_by_novelty pop emb k False = Indices [0..<length (artifacts pop)]
       \<and> select_by_novelty pop emb k True
           = IndicesAndScores [0..<length (artifacts pop)]
               (replicate (length (artifacts pop)) (Fin 0))"
  using assms by (simp add: select_by_novelty_def)

text \<open>
  Claim C3 at the store of three artifacts with \<^verbatim>\<open>k_neighbors = 3\<close>.
\<close>

theorem novelty_small_population_witness:
  "int (length (artifacts three_artifacts)) \<le> 3
   \<and> select_by_novelty three_artifacts [[1, 0], [99 / 100, 1 / 100], [0, 1]] 3 True
       = IndicesAndScores [0, 1, 2] [Fin 0, Fin 0, Fin 0]"
proof -
  have l: "length (artifacts three_artifacts) = 3"
    by (simp add: three_artifacts_def add_def population_init_def)
  have h: "int (length (artifacts three_artifacts)) \<le> 3" by (simp add: l)
  have u: "[0..<3] = [0, 1, 2]" by (simp add: upt_rec)
  have r: "replicate 3 (Fin 0) = [Fin 0, Fin 0, Fin 0]" by (simp add: numeral_3_eq_3)
  show ?thesis
    using h novelty_small_population [OF h, of "[[1, 0], [99 / 100, 1 / 100], [0, 1]]"]
    by (simp add: l u r)
qed

text \<open>
  Claim C10: with one embedding row per member of the store, the index list that
  \<^verbatim>\<open>select_by_novelty\<close> returns is a permutation of \<open>[0..<n]\<close>, in the fallback branch
  and in the ranking branch, for every \<^verbatim>\<open>k_neighbors\<close>.
\<close>

theorem novelty_indices_permutation:
  assumes "length emb = length (artifacts pop)"
  shows "mset (indices_of (select_by_novelty pop emb k rd)) = mset [0..<length (artifacts pop)]"
  using assms
  by (simp add: select_by_novelty_def Let_def mset_argsort_desc length_novelty_scores)

text \<open>
  Claim C10 at the store of three artifacts, once in the ranking branch
  (\<^verbatim>\<open>k_neighbors = 1\<close>) and once in the fallback branch (\<^verbatim>\<open>k_neighbors = 5\<close>).
\<close>

theorem novelty_indices_permutation_witness:
  "length example_embeddings = length (artifacts three_artifacts)
   \<and> mset (indices_of (select_by_novelty three_artifacts example_embeddings 1 False)) = mset [0, 1, 2]
   \<and> mset (indices_of (select_by_novelty three_artifacts example_embeddings 5 True)) = mset [0, 1, 2]"
proof -
  have h: "length example_embeddings = length (artifacts three_artifacts)"
    by (simp add: length_three_artifacts example_embeddings_def)
  have u: "[0..<3] = [0, 1, 2]" by (simp add: upt_rec)
  show ?thesis
    using h novelty_indices_permutation [OF h, of 1 False] novelty_indices_permutation [OF h, of 5 True]
    by (simp add: length_three_artifacts u)
qed

section \<open>Novelty selection: the sentinel on the diagonal\<close>

lemma sumsq_nonneg: "0 \<le> sumsq v"
  unfolding sumsq_def by (induction v) simp_all

lemma sumsq_Cons: "sumsq (x # v) = x\<^sup>2 + sumsq v"
  by (simp add: sumsq_def)

lemma dot_Cons: "dot (x # u) (y # v) = x * y + dot u v"
  by (simp add: dot_def)

lemma abs_product_bound: "\<bar>x * y\<bar> \<le> (x\<^sup>2 + y\<^sup>2) / 2" for x y :: real
proof -
  have "0 \<le> (\<bar>x\<bar> - \<bar>y\<bar>)\<^sup>2" by simp
  also have "(\<bar>x\<bar> - \<bar>y\<bar>)\<^sup>2 = x\<^sup>2 + y\<^sup>2 - 2 * \<bar>x * y\<bar>"
    by (simp add: power2_diff abs_mult)
  finally show ?thesis by simp
qed

lemma abs_dot_bound: "\<bar>dot u v\<bar> \<le> (sumsq u + sumsq v) / 2"
proof (induction u v rule: list_induct2')
  case 1
  then show ?case by (simp add: dot_def sumsq_def)
next
  case (2 x xs)
  then show ?case using sumsq_nonneg [of "x # xs"] by (simp add: dot_def sumsq_def)
next
  case (3 y ys)
  then show ?case using sumsq_nonneg [of "y # ys"] by (simp add: dot_def sumsq_def)
next
  case (4 x xs y ys)
  have "\<bar>dot (x # xs) (y # ys)\<bar> \<le> \<bar>x * y\<bar> + \<bar>dot xs ys\<bar>"
    by (simp add: dot_Cons)
  also have "\<dots> \<le> (x\<^sup>2 + y\<^sup>2) / 2 + (sumsq xs + sumsq ys) / 2"
    using abs_product_bound [of x y] 4 by (intro add_mono) simp_all
  also have "\<dots> = (sumsq (x # xs) + sumsq (y # ys)) / 2"
    by (simp add: sumsq_Cons field_simps)
  finally show ?case .
qed

lemma sumsq_scale: "sumsq (map (\<lambda>x. x / c) v) = sumsq v / c\<^sup>2"
  by (induction v) (simp_all add: sumsq_def power_divide add_divide_distrib)

lemma eps_pos: "0 < eps"
  by (simp add: eps_def)

lemma sumsq_normalize_row: "sumsq (normalize_row v) \<le> 1"
proof -
  let ?c = "max (norm2 v) eps"
  have c: "0 < ?c" using eps_pos by (simp add: max_def)
  have n: "norm2 v = sqrt (sumsq v)" by (simp add: norm2_def sumsq_def)
  have "sumsq v = (norm2 v)\<^sup>2" using sumsq_nonneg [of v] by (simp add: n)
  also have "\<dots> \<le> ?c\<^sup>2"
    using sumsq_nonneg [of v] by (intro power_mono) (simp_all add: n)
  finally have "sumsq v \<le> ?c\<^sup>2" .
  then have "sumsq v / ?c\<^sup>2 \<le> 1" using c by (simp add: divide_le_eq)
  then show ?thesis by (simp add: normalize_row_def sumsq_scale)
qed

lemma max_val_ge_2: "2 \<le> max_val"
  by (simp add: max_val_def)

lemma cosine_distances_nth:
  assumes "i < length emb" and "j < length emb"
  shows "cosine_distances emb ! i ! j = 1 - dot (normalize_row (emb ! i)) (normalize_row (emb ! j))"
  using assms by (simp add: cosine_distances_def mm_t_def normalize_rows_def)

lemma length_cosine_distances_row:
  "i < length emb \<Longrightarrow> length (cosine_distances emb ! i) = length emb"
  by (simp add: cosine_distances_def mm_t_def normalize_rows_def)

lemma cosine_distance_bounds:
  assumes "i < length emb" and "j < length emb"
  shows "0 \<le> cosine_distances emb ! i ! j \<and> cosine_distances emb ! i ! j \<le> 2"
proof -
  let ?u = "normalize_row (emb ! i)" and ?v = "normalize_row (emb ! j)"
  have "\<bar>dot ?u ?v\<bar> \<le> (sumsq ?u + sumsq ?v) / 2" by (rule abs_dot_bound)
  also have "\<dots> \<le> 1" using sumsq_normalize_row [of "emb ! i"] sumsq_normalize_row [of "emb ! j"] by simp
  finally have "\<bar>dot ?u ?v\<bar> \<le> 1" .
  then show ?thesis using assms by (simp add: cosine_distances_nth abs_le_iff)
qed

lemma fold_diagonal_nth:
  "n \<le> length d \<Longrightarrow> i < length d \<Longrightarrow>
   fold (\<lambda>i d. d[i := (d ! i)[i := v]]) [0..<n] d ! i = (if i < n then (d ! i)[i := v] else d ! i)"
proof (induction n arbitrary: i)
  case 0
  then show ?case by simp
next
  case (Suc n)
  let ?D = "fold (\<lambda>i d. d[i := (d ! i)[i := v]]) [0..<n] d"
  have l: "length ?D = length d" by (rule length_set_diagonal_aux)
  have n: "n < length d" using Suc.prems(1) by simp
  have IH: "?D ! j = (if j < n then (d ! j)[j := v] else d ! j)" if "j < length d" for j
    using Suc.IH [of j] n that by simp
  have step: "fold (\<lambda>i d. d[i := (d ! i)[i := v]]) [0..<Suc n] d = ?D[n := (?D ! n)[n := v]]"
    by simp
  show ?case
  proof (cases "i = n")
    case True
    then show ?thesis using n l IH [of n] by (simp only: step) simp
  next
    case False
    then show ?thesis using Suc.prems(2) IH [of i] by (simp only: step) auto
  qed
qed

lemma set_diagonal_nth:
  "i < length d \<Longrightarrow> set_diagonal d ! i = (d ! i)[i := max_val]"
  by (simp add: set_diagonal_def fold_diagonal_nth)

lemma length_without: "i < length xs \<Longrightarrow> length (without i xs) = length xs - 1"
  by (simp add: without_def)

lemma set_without_subset: "set (without i xs) \<subseteq> set xs"
  unfolding without_def using set_take_subset [of i xs] set_drop_subset [of "Suc i" xs] by auto

lemma sort_update_max:
  fixes r :: "real list"
  assumes "i < length r" and "\<forall>x \<in> set (without i r). x \<le> m"
  shows "sort (r[i := m]) = sort (without i r) @ [m]"
proof (rule properties_for_sort)
  have "r[i := m] = take i r @ m # drop (Suc i) r"
    using assms(1) by (rule upd_conv_take_nth_drop)
  then show "mset (sort (without i r) @ [m]) = mset (r[i := m])"
    by (simp add: without_def)
  show "sorted (sort (without i r) @ [m])"
    using assms(2) by (simp add: sorted_append)
qed

lemma other_distances_le_max_val:
  assumes "i < length emb"
  shows "\<forall>x \<in> set (other_distances emb i). x \<le> max_val"
proof
  fix x assume "x \<in> set (other_distances emb i)"
  then have "x \<in> set (cosine_distances emb ! i)"
    using set_without_subset [of i "cosine_distances emb ! i"] by (auto simp: other_distances_def)
  then obtain j where j: "j < length (cosine_distances emb ! i)" "x = cosine_distances emb ! i ! j"
    by (auto simp: in_set_conv_nth)
  then have "j < length emb" using assms by (simp add: length_cosine_distances_row)
  then have "x \<le> 2" using cosine_distance_bounds [OF assms, of j] j by simp
  then show "x \<le> max_val" using max_val_ge_2 by simp
qed

lemma sorted_row_sentinel_last:
  assumes "i < length emb"
  shows "sort (set_diagonal (cosine_distances emb) ! i) = sort (other_distances emb i) @ [max_val]"
proof -
  have "set_diagonal (cosine_distances emb) ! i = (cosine_distances emb ! i)[i := max_val]"
    using assms by (simp add: set_diagonal_nth length_cosine_distances)
  moreover have "i < length (cosine_distances emb ! i)"
    using assms by (simp add: length_cosine_distances_row)
  ultimately show ?thesis
    using other_distances_le_max_val [OF assms]
    by (simp add: other_distances_def sort_update_max)
qed

lemma length_other_distances:
  "i < length emb \<Longrightarrow> length (other_distances emb i) = length emb - 1"
  by (simp add: other_distances_def length_without length_cosine_distances_row)

lemma novelty_scores_nth:
  assumes "i < length emb" and "0 \<le> k" and "k < int (length emb)"
  shows "novelty_scores emb k ! i = knn_novelty emb (nat k) i"
proof -
  have "novelty_scores emb k ! i = mean (py_take k (sort (set_diagonal (cosine_distances emb) ! i)))"
    using assms(1) by (simp add: novelty_scores_def length_set_diagonal length_cosine_distances)
  also have "\<dots> = mean (take (nat k) (sort (other_distances emb i) @ [max_val]))"
    using assms by (simp add: py_take_def sorted_row_sentinel_last)
  also have "\<dots> = mean (take (nat k) (sort (other_distances emb i)))"
    using assms by (simp add: length_other_distances)
  finally show ?thesis by (simp add: knn_novelty_def)
qed

lemma novelty_scores_knn:
  assumes "0 \<le> k" and "k < int (length emb)"
  shows "novelty_scores emb k = map (knn_novelty emb (nat k)) [0..<length emb]"
  by (rule nth_equalityI) (simp_all add: length_novelty_scores novelty_scores_nth assms)

text \<open>
  Claim C2: with one embedding row per member of the store and
  \<open>0 \<le> k_neighbors < n\<close>, the score of every member \<open>i\<close> is the mean of the
  \<open>k_neighbors\<close> smallest distances from row \<open>i\<close> to the other rows. Every row of the
  distance matrix, once its diagonal entry is \<open>max_val\<close> and it is sorted, is the sorted
  list of the \<open>n - 1\<close> distances to the other rows followed by \<open>max_val\<close>, so the
  first \<open>k_neighbors\<close> entries never reach the sentinel.
\<close>

theorem novelty_excludes_self:
  assumes "length emb = length (artifacts pop)"
    and "0 \<le> k" and "k < int (length (artifacts pop))"
  shows "scores_of (select_by_novelty pop emb k True)
           = Some (map (knn_novelty emb (nat k)) [0..<length (artifacts pop)])
       \<and> map (\<lambda>i. sort (set_diagonal (cosine_distances emb) ! i)) [0..<length (artifacts pop)]
           = map (\<lambda>i. sort (other_distances emb i) @ [max_val]) [0..<length (artifacts pop)]
       \<and> map (\<lambda>i. length (other_distances emb i)) [0..<length (artifacts pop)]
           = replicate (length (artifacts pop)) (length (artifacts pop) - 1)"
proof (intro conjI)
  show "scores_of (select_by_novelty pop emb k True)
           = Some (map (knn_novelty emb (nat k)) [0..<length (artifacts pop)])"
    using assms novelty_scores_knn [of k emb] by (simp add: select_by_novelty_def Let_def)
  show "map (\<lambda>i. sort (set_diagonal (cosine_distances emb) ! i)) [0..<length (artifacts pop)]
           = map (\<lambda>i. sort (other_distances emb i) @ [max_val]) [0..<length (artifacts pop)]"
    using assms(1) by (simp add: sorted_row_sentinel_last)
  show "map (\<lambda>i. length (other_distances emb i)) [0..<length (artifacts pop)]
           = replicate (length (artifacts pop)) (length (artifacts pop) - 1)"
    using assms(1) by (intro nth_equalityI) (simp_all add: length_other_distances)
qed

text \<open>
  Claim C2 at three artifacts with the embeddings \<^verbatim>\<open>[1,0]\<close>, \<^verbatim>\<open>[0,1]\<close>, \<^verbatim>\<open>[1,0]\<close> and
  \<^verbatim>\<open>k_neighbors = 1\<close>: the first and the last row coincide and score 0, although each
  is also at distance 0 from itself; the middle row scores 1.
\<close>

theorem novelty_excludes_self_witness:
  "length [[1, 0], [0, 1], [1, 0 :: real]] = length (artifacts three_artifacts)
   \<and> (0::int) \<le> 1 \<and> 1 < int (length (artifacts three_artifacts))
   \<and> scores_of (select_by_novelty three_artifacts [[1, 0], [0, 1], [1, 0]] 1 True)
       = Some [Fin 0, Fin 1, Fin 0]"
proof -
  let ?e = "[[1, 0], [0, 1], [1, 0 :: real]]"
  have h1: "length ?e = length (artifacts three_artifacts)" by (simp add: length_three_artifacts)
  have h2: "(0::int) \<le> 1" by simp
  have h3: "1 < int (length (artifacts three_artifacts))" by (simp add: length_three_artifacts)
  have n0: "normalize_row [1, 0] = [1, 0]" by (simp add: normalize_row_def norm2_def eps_def)
  have n2: "normalize_row [0, 1] = [0, 1]" by (simp add: normalize_row_def norm2_def eps_def)
  have cd: "cosine_distances ?e = [[0, 1, 0], [1, 0, 1], [0, 1, 0]]"
    by (simp add: cosine_distances_def mm_t_def normalize_rows_def n0 n2 dot_def)
  have u: "[0..<3] = [0, 1, 2]" by (simp add: upt_rec)
  have k: "map (knn_novelty ?e (nat 1)) [0, 1, 2] = [Fin 0, Fin 1, Fin 0]"
    by (simp add: knn_novelty_def other_distances_def without_def cd mean_def)
  have "scores_of (select_by_novelty three_artifacts ?e 1 True) = Some [Fin 0, Fin 1, Fin 0]"
    using novelty_excludes_self [OF h1 h2 h3, THEN conjunct1]
    by (simp only: length_three_artifacts u k)
  then show ?thesis using h1 h2 h3 by (intro conjI)
qed

section \<open>Novelty selection: the ranking\<close>

lemma desc_key_le: "desc_key a \<le> desc_key b \<longleftrightarrow> score_ge a b"
  by (cases a; cases b) simp_all

lemma argsort_desc_sorted:
  "sorted_wrt (\<lambda>i j. score_ge (scores ! i) (scores ! j)) (argsort_desc scores)"
proof -
  have "sorted (map (\<lambda>i. desc_key (scores ! i)) (argsort_desc scores))"
    by (simp add: argsort_desc_def)
  then show ?thesis by (simp add: sorted_map desc_key_le)
qed

lemma identity_sorted_zero:
  "sorted_wrt (\<lambda>i j. score_ge (replicate n (Fin 0) ! i) (replicate n (Fin 0) ! j)) [0..<n]"
  by (simp add: sorted_wrt_iff_nth_less)

lemma example_norm_eq: "norm2 [99 / 100, 1 / 100] = example_norm"
proof -
  have "sum_list (map (\<lambda>x. x\<^sup>2) [99 / 100, 1 / 100 :: real]) = 4901 / 5000"
    by (simp add: power2_eq_square)
  then show ?thesis by (simp only: norm2_def example_norm_def)
qed

lemma example_norm_ge: "1 / 2 \<le> example_norm"
proof -
  have "(1 / 2)\<^sup>2 \<le> (4901 / 5000 :: real)" by (simp add: power2_eq_square)
  then show ?thesis unfolding example_norm_def by (rule real_le_rsqrt)
qed

lemma example_scores_lt:
  "1 - 99 / 100 / example_norm < 1 - 1 / 100 / example_norm"
  using example_norm_ge by (simp add: divide_strict_right_mono)

lemma example_scores:
  "novelty_scores example_embeddings 1
   = [Fin (1 - 99 / 100 / example_norm), Fin (1 - 99 / 100 / example_norm),
      Fin (1 - 1 / 100 / example_norm)]"
proof -
  define a where "a = 99 / 100 / example_norm"
  define b where "b = 1 / 100 / example_norm"
  have s: "1 / 2 \<le> example_norm" by (rule example_norm_ge)
  then have ms: "max example_norm eps = example_norm" by (simp add: eps_def max_def)
  have ab: "0 < b" "b < a" using s by (simp_all add: a_def b_def divide_strict_right_mono)
  have n0: "normalize_row [1, 0] = [1, 0]" by (simp add: normalize_row_def norm2_def eps_def)
  have n2: "normalize_row [0, 1] = [0, 1]" by (simp add: normalize_row_def norm2_def eps_def)
  have n1: "normalize_row [99 / 100, 1 / 100] = [a, b]"
    using ms by (simp add: normalize_row_def example_norm_eq a_def b_def)
  have l: "length example_embeddings = 3" by (simp add: example_embeddings_def)
  have u: "[0..<3] = [0, 1, 2]" by (simp add: upt_rec)
  have cd: "cosine_distances example_embeddings
            = [[0, 1 - a, 1], [1 - a, 1 - (a * a + b * b), 1 - b], [1, 1 - b, 0]]"
    by (simp add: cosine_distances_def mm_t_def normalize_rows_def example_embeddings_def n0 n1 n2 dot_def)
  have o0: "other_distances example_embeddings 0 = [1 - a, 1]"
    by (simp add: other_distances_def without_def cd)
  have o1: "other_distances example_embeddings (Suc 0) = [1 - a, 1 - b]"
    by (simp add: other_distances_def without_def cd)
  have o2: "other_distances example_embeddings 2 = [1, 1 - b]"
    by (simp add: other_distances_def without_def cd)
  have k0: "knn_novelty example_embeddings (Suc 0) 0 = Fin (1 - a)"
    using ab by (simp add: knn_novelty_def o0 mean_def)
  have k1: "knn_novelty example_embeddings (Suc 0) (Suc 0) = Fin (1 - a)"
    using ab by (simp add: knn_novelty_def o1 mean_def)
  have k2: "knn_novelty example_embeddings (Suc 0) 2 = Fin (1 - b)"
    using ab by (simp add: knn_novelty_def o2 mean_def)
  have "novelty_scores example_embeddings 1 = map (knn_novelty example_embeddings (nat 1)) [0..<length example_embeddings]"
    by (rule novelty_scores_knn) (simp_all add: l)
  then have "novelty_scores example_embeddings 1 = [Fin (1 - a), Fin (1 - a), Fin (1 - b)]"
    by (simp add: l u k0 k1 k2)
  then show ?thesis by (simp only: a_def b_def)
qed

lemma set_argsort_desc: "set (argsort_desc scores) = {..<length scores}"
proof -
  have "set (argsort_desc scores) = set [0..<length scores]"
    using mset_argsort_desc [of scores] by (rule mset_eq_setD)
  then show ?thesis by (simp add: atLeast_upt)
qed

lemma argsort_desc_sorted_knn:
  assumes "0 \<le> k" and "k < int (length emb)"
  shows "sorted_wrt (\<lambda>i j. score_ge (knn_novelty emb (nat k) i) (knn_novelty emb (nat k) j))
           (argsort_desc (novelty_scores emb k))"
proof (rule sorted_wrt_mono_rel [OF _ argsort_desc_sorted [of "novelty_scores emb k"]])
  fix i j
  assume "i \<in> set (argsort_desc (novelty_scores emb k))"
    and "j \<in> set (argsort_desc (novelty_scores emb k))"
    and ge: "score_ge (novelty_scores emb k ! i) (novelty_scores emb k ! j)"
  then have "i < length emb" "j < length emb"
    by (simp_all add: set_argsort_desc length_novelty_scores)
  then show "score_ge (knn_novelty emb (nat k) i) (knn_novelty emb (nat k) j)"
    using ge assms by (simp add: novelty_scores_nth)
qed

lemma argsort_desc_example:
  "da < db \<Longrightarrow> argsort_desc [Fin da, Fin da, Fin db] = [2, 0, 1]"
proof -
  assume "da < db"
  moreover have "[0..<3] = [0, 1, 2]" by (simp add: upt_rec)
  ultimately show ?thesis by (simp add: argsort_desc_def numeral_3_eq_3)
qed

text \<open>
  Claim C4: for three artifacts with the embeddings \<^verbatim>\<open>[1,0]\<close>, \<^verbatim>\<open>[0.99,0.01]\<close>,
  \<^verbatim>\<open>[0,1]\<close> and \<^verbatim>\<open>k_neighbors = 1\<close>, the scores are \<open>1 - 0.99/s\<close>, \<open>1 - 0.99/s\<close> and
  \<open>1 - 0.01/s\<close> with \<open>s\<close> the norm of the second row, the last score is the highest, and
  the index list is a permutation of \<open>[0, 1, 2]\<close> that starts with 2, the artifact with
  the embedding \<^verbatim>\<open>[0,1]\<close>. In general, with one embedding row per member of the store
  and \<open>0 \<le> k_neighbors < n\<close>, the scores returned are the novelty scores (the mean of
  the \<open>k_neighbors\<close> smallest distances to the other rows), the index list is a
  permutation of \<open>[0..<n]\<close>, and along it the novelty score never increases. For every
  input the index list is in descending order of the scores returned with it, and it
  is the same list with and without \<^verbatim>\<open>return_distances\<close>.
\<close>

theorem novelty_ranking_order:
  "(\<exists>rest. select_by_novelty three_artifacts example_embeddings 1 True
             = IndicesAndScores (2 # rest)
                 [Fin (1 - 99 / 100 / example_norm), Fin (1 - 99 / 100 / example_norm),
                  Fin (1 - 1 / 100 / example_norm)]
           \<and> select_by_novelty three_artifacts example_embeddings 1 False = Indices (2 # rest)
           \<and> mset (2 # rest) = mset [0, 1, 2])
   \<and> 1 - 99 / 100 / example_norm < 1 - 1 / 100 / example_norm
   \<and> (length emb = length (artifacts pop) \<and> 0 \<le> k \<and> k < int (length (artifacts pop)) \<longrightarrow>
        (\<exists>is. select_by_novelty pop emb k False = Indices is
            \<and> select_by_novelty pop emb k True
                = IndicesAndScores is (map (knn_novelty emb (nat k)) [0..<length (artifacts pop)])
            \<and> mset is = mset [0..<length (artifacts pop)]
            \<and> sorted_wrt (\<lambda>i j. score_ge (knn_novelty emb (nat k) i) (knn_novelty emb (nat k) j)) is))
   \<and> (\<exists>is ds. select_by_novelty pop emb k True = IndicesAndScores is ds
        \<and> select_by_novelty pop emb k False = Indices is
        \<and> sorted_wrt (\<lambda>i j. score_ge (ds ! i) (ds ! j)) is)"
proof (intro conjI impI)
  have a: "argsort_desc [Fin (1 - 99 / 100 / example_norm), Fin (1 - 99 / 100 / example_norm),
             Fin (1 - 1 / 100 / example_norm)] = [2, 0, 1]"
    by (rule argsort_desc_example [OF example_scores_lt])
  have b: "\<not> int (length (artifacts three_artifacts)) \<le> 1"
    by (simp add: length_three_artifacts)
  have t: "select_by_novelty three_artifacts example_embeddings 1 True
           = IndicesAndScores (argsort_desc (novelty_scores example_embeddings 1))
               (novelty_scores example_embeddings 1)"
    using b by (simp add: select_by_novelty_def Let_def)
  have f: "select_by_novelty three_artifacts example_embeddings 1 False
           = Indices (argsort_desc (novelty_scores example_embeddings 1))"
    using b by (simp add: select_by_novelty_def Let_def)
  have m: "mset (2 # [0, 1 :: nat]) = mset [0, 1, 2]" by simp
  have "select_by_novelty three_artifacts example_embeddings 1 True
             = IndicesAndScores (2 # [0, 1])
                 [Fin (1 - 99 / 100 / example_norm), Fin (1 - 99 / 100 / example_norm),
                  Fin (1 - 1 / 100 / example_norm)]
           \<and> select_by_novelty three_artifacts example_embeddings 1 False = Indices (2 # [0, 1])
           \<and> mset (2 # [0, 1 :: nat]) = mset [0, 1, 2]"
    using t f m unfolding example_scores a by blast
  then show "\<exists>rest. select_by_novelty three_artifacts example_embeddings 1 True
             = IndicesAndScores (2 # rest)
                 [Fin (1 - 99 / 100 / example_norm), Fin (1 - 99 / 100 / example_norm),
                  Fin (1 - 1 / 100 / example_norm)]
           \<and> select_by_novelty three_artifacts example_embeddings 1 False = Indices (2 # rest)
           \<and> mset (2 # rest) = mset [0, 1, 2]"
    by (rule exI)
next
  show "1 - 99 / 100 / example_norm < 1 - 1 / 100 / example_norm"
    by (rule example_scores_lt)
next
  assume h: "length emb = length (artifacts pop) \<and> 0 \<le> k \<and> k < int (length (artifacts pop))"
  then have k: "0 \<le> k" "k < int (length emb)" and l: "length emb = length (artifacts pop)"
    by simp_all
  have s: "novelty_scores emb k = map (knn_novelty emb (nat k)) [0..<length (artifacts pop)]"
    using novelty_scores_knn [OF k] l by simp
  have b: "\<not> int (length (artifacts pop)) \<le> k" using h by simp
  have "select_by_novelty pop emb k False = Indices (argsort_desc (novelty_scores emb k))
      \<and> select_by_novelty pop emb k True
          = IndicesAndScores (argsort_desc (novelty_scores emb k))
              (map (knn_novelty emb (nat k)) [0..<length (artifacts pop)])
      \<and> mset (argsort_desc (novelty_scores emb k)) = mset [0..<length (artifacts pop)]
      \<and> sorted_wrt (\<lambda>i j. score_ge (knn_novelty emb (nat k) i) (knn_novelty emb (nat k) j))
           (argsort_desc (novelty_scores emb k))"
  proof (intro conjI)
    show "select_by_novelty pop emb k False = Indices (argsort_desc (novelty_scores emb k))"
      using b by (simp add: select_by_novelty_def Let_def)
    show "select_by_novelty pop emb k True
          = IndicesAndScores (argsort_desc (novelty_scores emb k))
              (map (knn_novelty emb (nat k)) [0..<length (artifacts pop)])"
      using b s by (simp add: select_by_novelty_def Let_def)
    show "mset (argsort_desc (novelty_scores emb k)) = mset [0..<length (artifacts pop)]"
      using l by (simp add: mset_argsort_desc length_novelty_scores)
    show "sorted_wrt (\<lambda>i j. score_ge (knn_novelty emb (nat k) i) (knn_novelty emb (nat k) j))
           (argsort_desc (novelty_scores emb k))"
      by (rule argsort_desc_sorted_knn [OF k])
  qed
  then show "\<exists>is. select_by_novelty pop emb k False = Indices is
            \<and> select_by_novelty pop emb k True
                = IndicesAndScores is (map (knn_novelty emb (nat k)) [0..<length (artifacts pop)])
            \<and> mset is = mset [0..<length (artifacts pop)]
            \<and> sorted_wrt (\<lambda>i j. score_ge (knn_novelty emb (nat k) i) (knn_novelty emb (nat k) j)) is"
    by (rule exI)
next
  show "\<exists>is ds. select_by_novelty pop emb k True = IndicesAndScores is ds
        \<and> select_by_novelty pop emb k False = Indices is
        \<and> sorted_wrt (\<lambda>i j. score_ge (ds ! i) (ds ! j)) is"
    using argsort_desc_sorted [of "novelty_scores emb k"]
      identity_sorted_zero [of "length (artifacts pop)"]
    by (simp add: select_by_novelty_def Let_def)
qed

text \<open>
  Claim C4 at three artifacts with the embeddings \<^verbatim>\<open>[1,0]\<close>, \<^verbatim>\<open>[0,1]\<close>, \<^verbatim>\<open>[1,0]\<close> and
  \<^verbatim>\<open>k_neighbors = 1\<close>: the scores are 0, 1, 0 and the index list is a permutation of
  \<open>[0, 1, 2]\<close> in descending order of these scores.
\<close>

theorem novelty_ranking_order_witness:
  "length [[1, 0], [0, 1], [1, 0 :: real]] = length (artifacts three_artifacts)
   \<and> (0::int) \<le> 1 \<and> 1 < int (length (artifacts three_artifacts))
   \<and> (\<exists>is. select_by_novelty three_artifacts [[1, 0], [0, 1], [1, 0]] 1 False = Indices is
         \<and> select_by_novelty three_artifacts [[1, 0], [0, 1], [1, 0]] 1 True
             = IndicesAndScores is [Fin 0, Fin 1, Fin 0]
         \<and> mset is = mset [0, 1, 2]
         \<and> sorted_wrt (\<lambda>i j. score_ge ([Fin 0, Fin 1, Fin 0] ! i) ([Fin 0, Fin 1, Fin 0] ! j)) is)"
proof -
  let ?e = "[[1, 0], [0, 1], [1, 0 :: real]]"
  have h: "length ?e = length (artifacts three_artifacts) \<and> (0::int) \<le> 1
           \<and> 1 < int (length (artifacts three_artifacts))"
    by (simp add: length_three_artifacts)
  have n0: "normalize_row [1, 0] = [1, 0]" by (simp add: normalize_row_def norm2_def eps_def)
  have n2: "normalize_row [0, 1] = [0, 1]" by (simp add: normalize_row_def norm2_def eps_def)
  have cd: "cosine_distances ?e = [[0, 1, 0], [1, 0, 1], [0, 1, 0]]"
    by (simp add: cosine_distances_def mm_t_def normalize_rows_def n0 n2 dot_def)
  have u: "[0..<3] = [0, 1, 2]" by (simp add: upt_rec)
  have k0: "knn_novelty ?e (nat 1) 0 = Fin 0"
    by (simp add: knn_novelty_def other_distances_def without_def cd mean_def)
  have k1: "knn_novelty ?e (nat 1) 1 = Fin 1"
    by (simp add: knn_novelty_def other_distances_def without_def cd mean_def)
  have k2: "knn_novelty ?e (nat 1) 2 = Fin 0"
    by (simp add: knn_novelty_def other_distances_def without_def cd mean_def)
  have k: "map (knn_novelty ?e (nat 1)) [0, 1, 2] = [Fin 0, Fin 1, Fin 0]"
    by (simp only: list.map k0 k1 k2)
  have g: "\<exists>is. select_by_novelty three_artifacts ?e 1 False = Indices is
            \<and> select_by_novelty three_artifacts ?e 1 True
                = IndicesAndScores is (map (knn_novelty ?e (nat 1)) [0..<length (artifacts three_artifacts)])
            \<and> mset is = mset [0..<length (artifacts three_artifacts)]
            \<and> sorted_wrt (\<lambda>i j. score_ge (knn_novelty ?e (nat 1) i) (knn_novelty ?e (nat 1) j)) is"
    by (rule novelty_ranking_order [where emb = ?e and pop = three_artifacts and k = 1,
          THEN conjunct2, THEN conjunct2, THEN conjunct1, THEN mp, OF h])
  then obtain "is" where i:
    "select_by_novelty three_artifacts ?e 1 False = Indices is"
    "select_by_novelty three_artifacts ?e 1 True = IndicesAndScores is [Fin 0, Fin 1, Fin 0]"
    "mset is = mset [0, 1, 2]"
    "sorted_wrt (\<lambda>i j. score_ge (knn_novelty ?e (nat 1) i) (knn_novelty ?e (nat 1) j)) is"
    unfolding length_three_artifacts u k by (elim exE conjE)
  have mem: "set is = {0, 1, 2}"
    using mset_eq_setD [OF i(3)] by simp
  have "sorted_wrt (\<lambda>i j. score_ge ([Fin 0, Fin 1, Fin 0] ! i) ([Fin 0, Fin 1, Fin 0] ! j)) is"
  proof (rule sorted_wrt_mono_rel [OF _ i(4)])
    fix x y assume "x \<in> set is" "y \<in> set is"
      and ge: "score_ge (knn_novelty ?e (nat 1) x) (knn_novelty ?e (nat 1) y)"
    then have "x \<in> {0, 1, 2}" "y \<in> {0, 1, 2}" by (simp_all only: mem)
    then have "knn_novelty ?e (nat 1) x = [Fin 0, Fin 1, Fin 0] ! x"
      and "knn_novelty ?e (nat 1) y = [Fin 0, Fin 1, Fin 0] ! y"
      using k0 k1 k2 by auto
    with ge show "score_ge ([Fin 0, Fin 1, Fin 0] ! x) ([Fin 0, Fin 1, Fin 0] ! y)"
      by (simp only:)
  qed
  with h i(1) i(2) i(3) show ?thesis by blast
qed

section \<open>Novelty selection: embeddings of the wrong shape\<close>

lemma two_row_scores:
  "novelty_scores [[1, 0], [0, 1]] 2 = [Fin ((1 + max_val) / 2), Fin ((1 + max_val) / 2)]"
proof -
  have n0: "normalize_row [1, 0] = [1, 0]" by (simp add: normalize_row_def norm2_def eps_def)
  have n2: "normalize_row [0, 1] = [0, 1]" by (simp add: normalize_row_def norm2_def eps_def)
  have cd: "cosine_distances [[1, 0], [0, 1]] = [[0, 1], [1, 0]]"
    by (simp add: cosine_distances_def mm_t_def normalize_rows_def n0 n2 dot_def)
  have u: "[0..<2] = [0, 1]" by (simp add: upt_rec)
  have sd: "set_diagonal [[0, 1], [1, 0]] = [[max_val, 1], [1, max_val]]"
    by (simp add: set_diagonal_def u)
  have m: "\<not> max_val \<le> 1" "1 \<le> max_val" using max_val_ge_2 by simp_all
  show ?thesis
    using m by (simp add: novelty_scores_def cd sd py_take_def mean_def)
qed

text \<open>
  Claim C6, as stated, fails: for a store of four artifacts and an embeddings tensor
  of two rows, \<^verbatim>\<open>select_by_novelty\<close> with \<^verbatim>\<open>k_neighbors = 2\<close> raises nothing and returns
  two scores, each the mean of a distance and the sentinel \<open>max_val\<close>.
\<close>

theorem novelty_shape_counterexample:
  "length [[1, 0], [0, 1 :: real]] \<noteq> length (artifacts four_artifacts)
   \<and> scores_of (select_by_novelty four_artifacts [[1, 0], [0, 1]] 2 True)
       = Some [Fin ((1 + max_val) / 2), Fin ((1 + max_val) / 2)]
   \<and> length (indices_of (select_by_novelty four_artifacts [[1, 0], [0, 1]] 2 True)) = 2"
  by (simp add: select_by_novelty_def Let_def length_four_artifacts two_row_scores
      argsort_desc_def)

text \<open>
  Claim C6, amended: \<^verbatim>\<open>select_by_novelty\<close> checks no shape and returns normally for
  every two-dimensional embeddings tensor, whatever its number of rows \<open>m\<close>. When the
  store has at most \<^verbatim>\<open>k_neighbors\<close> members the result is the identity ordering of the
  store with zero scores; otherwise it is a permutation of \<open>[0..<m]\<close> with \<open>m\<close> scores.
\<close>

theorem novelty_no_shape_check:
  "(int (length (artifacts pop)) \<le> k \<longrightarrow>
      select_by_novelty pop emb k True
        = IndicesAndScores [0..<length (artifacts pop)] (replicate (length (artifacts pop)) (Fin 0)))
   \<and> (k < int (length (artifacts pop)) \<longrightarrow>
        (\<exists>is ds. select_by_novelty pop emb k True = IndicesAndScores is ds
           \<and> select_by_novelty pop emb k False = Indices is
           \<and> mset is = mset [0..<length emb] \<and> length ds = length emb))"
  by (simp add: select_by_novelty_def Let_def mset_argsort_desc length_novelty_scores)

text \<open>
  The amended claim C6 at a store of four artifacts and two embedding rows, in both
  branches.
\<close>

theorem novelty_no_shape_check_witness:
  "int (length (artifacts four_artifacts)) \<le> 7
   \<and> select_by_novelty four_artifacts [[1, 0], [0, 1]] 7 True
       = IndicesAndScores [0, 1, 2, 3] [Fin 0, Fin 0, Fin 0, Fin 0]
   \<and> 2 < int (length (artifacts four_artifacts))
   \<and> (\<exists>is ds. select_by_novelty four_artifacts [[1, 0], [0, 1]] 2 True = IndicesAndScores is ds
         \<and> select_by_novelty four_artifacts [[1, 0], [0, 1]] 2 False = Indices is
         \<and> mset is = mset [0, 1] \<and> length ds = 2)"
proof -
  have h1: "int (length (artifacts four_artifacts)) \<le> 7" by (simp add: length_four_artifacts)
  have h2: "2 < int (length (artifacts four_artifacts))" by (simp add: length_four_artifacts)
  have u4: "[0..<4] = [0, 1, 2, 3]" by (simp add: upt_rec)
  have u2: "[0..<2] = [0, 1]" by (simp add: upt_rec)
  have r4: "replicate 4 (Fin 0) = [Fin 0, Fin 0, Fin 0, Fin 0]" by (simp add: eval_nat_numeral)
  have a: "select_by_novelty four_artifacts [[1, 0], [0, 1]] 7 True
       = IndicesAndScores [0, 1, 2, 3] [Fin 0, Fin 0, Fin 0, Fin 0]"
    using novelty_no_shape_check [of four_artifacts 7 "[[1, 0], [0, 1]]"] h1
    by (simp add: length_four_artifacts u4 r4)
  have b: "\<exists>is ds. select_by_novelty four_artifacts [[1, 0], [0, 1]] 2 True = IndicesAndScores is ds
         \<and> select_by_novelty four_artifacts [[1, 0], [0, 1]] 2 False = Indices is
         \<and> mset is = mset [0, 1] \<and> length ds = 2"
    using novelty_no_shape_check [of four_artifacts 2 "[[1, 0], [0, 1]]"] h2
    by (simp add: u2 eval_nat_numeral)
  show ?thesis using h1 a h2 b by (intro conjI)
qed

section \<open>Generation ledger: appended entries\<close>

lemma save_calls_ledger:
  "save_calls fs dir calls (path_join dir ''population_data.jsonl'')
   = fs (path_join dir ''population_data.jsonl'')
     @ map (\<lambda>(now, pop, gen).
            \<lparr>generation = gen, timestamp = now,
             genome_ids = map artifact_id (artifacts pop),
             entry_count = length (artifacts pop)\<rparr>) calls"
proof (induction calls arbitrary: fs)
  case Nil
  then show ?case by simp
next
  case (Cons c calls)
  obtain now pop gen where c: "c = (now, pop, gen)" by (cases c) auto
  show ?case by (simp add: c Cons.IH save_def Let_def)
qed

text \<open>
  Claim C8: after the \<^verbatim>\<open>save\<close> calls \<open>calls\<close> into one output directory, the ledger is
  its former content followed by one entry per call, in call order (exactly \<open>N\<close>
  entries for \<open>N\<close> calls on a new ledger); each new entry has the generation number and
  the clock reading of its call, the ids of the store in the order of the store, and an
  \<open>entry_count\<close> equal to the length of its own id list.
\<close>

theorem save_appends_entries:
  "length (ledger (save_calls fs dir calls) dir) = length (ledger fs dir) + length calls
   \<and> take (length (ledger fs dir)) (ledger (save_calls fs dir calls) dir) = ledger fs dir
   \<and> map generation (drop (length (ledger fs dir)) (ledger (save_calls fs dir calls) dir))
       = map (\<lambda>(now, pop, gen). gen) calls
   \<and> map timestamp (drop (length (ledger fs dir)) (ledger (save_calls fs dir calls) dir))
       = map (\<lambda>(now, pop, gen). now) calls
   \<and> map genome_ids (drop (length (ledger fs dir)) (ledger (save_calls fs dir calls) dir))
       = map (\<lambda>(now, pop, gen). map artifact_id (artifacts pop)) calls
   \<and> map entry_count (drop (length (ledger fs dir)) (ledger (save_calls fs dir calls) dir))
       = map (\<lambda>e. length (genome_ids e))
           (drop (length (ledger fs dir)) (ledger (save_calls fs dir calls) dir))"
  by (simp add: ledger_def ledger_path_def save_calls_ledger case_prod_beta comp_def)

text \<open>
  Claim C8 for two calls on a new ledger, the store having grown by one artifact
  between them.
\<close>

theorem save_appends_entries_witness:
  "ledger (save_calls (\<lambda>p. []) ''out''
         [(''t0'', three_artifacts, 0), (''t1'', add three_artifacts (artifact_init ''d'' 0), 1)]) ''out''
       = [\<lparr>generation = 0, timestamp = ''t0'', genome_ids = [''a'', ''b'', ''c''], entry_count = 3\<rparr>,
          \<lparr>generation = 1, timestamp = ''t1'', genome_ids = [''a'', ''b'', ''c'', ''d''], entry_count = 4\<rparr>]
   \<and> length (ledger (save_calls (\<lambda>p. []) ''out''
         [(''t0'', three_artifacts, 0), (''t1'', add three_artifacts (artifact_init ''d'' 0), 1)]) ''out'')
       = 2"
proof -
  let ?calls = "[(''t0'', three_artifacts, 0::int), (''t1'', add three_artifacts (artifact_init ''d'' 0), 1)]"
  have e: "ledger (\<lambda>p. []) ''out'' = []" by (simp add: ledger_def)
  have v: "ledger (save_calls (\<lambda>p. []) ''out'' ?calls) ''out''
       = [\<lparr>generation = 0, timestamp = ''t0'', genome_ids = [''a'', ''b'', ''c''], entry_count = 3\<rparr>,
          \<lparr>generation = 1, timestamp = ''t1'', genome_ids = [''a'', ''b'', ''c'', ''d''], entry_count = 4\<rparr>]"
    by (simp add: ledger_def ledger_path_def save_def Let_def path_join_def three_artifacts_def
        add_def population_init_def artifact_init_def)
  have "length (ledger (save_calls (\<lambda>p. []) ''out'' ?calls) ''out'')
        = length (ledger (\<lambda>p. []) ''out'') + length ?calls"
    by (rule save_appends_entries [of "\<lambda>p. []" "''out''" ?calls, THEN conjunct1])
  then have "length (ledger (save_calls (\<lambda>p. []) ''out'' ?calls) ''out'') = 2"
    by (simp add: e)
  with v show ?thesis by (rule conjI)
qed

end
